theory Spec2Isabelle
  imports Complex_Main "HOL-Library.Word"
begin

section \<open>Opulent Voice receiver: frame parsing, dispatch and audio queue\<close>

text \<open>
  A shallow embedding of \<^verbatim>\<open>opulent_voice_receiver.py\<close>. Byte strings are lists of
  8-bit words, Python integers are \<open>nat\<close> where they are read out of a byte string
  and \<open>int\<close> where they are counters, and the readings of \<^verbatim>\<open>time.time()\<close> are
  passed in as arguments. Printing (\<^verbatim>\<open>print\<close>, \<^verbatim>\<open>replace_colons\<close>) changes no
  state of the receiver and is left out.
\<close>

subsection \<open>Byte strings and the frame header\<close>

type_synonym byte = "8 word"
type_synonym bytes = "byte list"

definition MAGIC_BYTES :: bytes where
  "MAGIC_BYTES = [0xFF, 0x5D]"

definition FRAME_TYPE_AUDIO :: nat where
  "FRAME_TYPE_AUDIO = 0x01"

definition FRAME_TYPE_TEXT :: nat where
  "FRAME_TYPE_TEXT = 0x02"

definition FRAME_TYPE_CONTROL :: nat where
  "FRAME_TYPE_CONTROL = 0x03"

definition FRAME_TYPE_DATA :: nat where
  "FRAME_TYPE_DATA = 0x04"

definition HEADER_SIZE :: nat where
  "HEADER_SIZE = 14"

text \<open>
  The dictionary that \<^verbatim>\<open>parse_frame\<close> returns has five fixed keys; the key
  \<^verbatim>\<open>'type'\<close> is the field \<open>frame_type\<close>.
\<close>

record frame =
  station_id :: bytes
  frame_type :: nat
  sequence :: nat
  payload :: bytes
  timestamp :: real

datatype struct_error = StructError

text \<open>
  \<^verbatim>\<open>struct.unpack('>2s 6s B H H B', b)\<close>: it raises \<^verbatim>\<open>struct.error\<close> unless the
  buffer has exactly 14 bytes; \<^verbatim>\<open>H\<close> is an unsigned 16-bit integer, most significant
  byte first.
\<close>

definition be16 :: "byte \<Rightarrow> byte \<Rightarrow> nat" where
  "be16 hi lo = 256 * unat hi + unat lo"

definition struct_unpack_header ::
  "bytes \<Rightarrow> struct_error + (bytes \<times> bytes \<times> nat \<times> nat \<times> nat \<times> nat)" where
  "struct_unpack_header b =
     (if length b \<noteq> 14 then Inl StructError
      else Inr (take 2 b, take 6 (drop 2 b), unat (b ! 8),
                be16 (b ! 9) (b ! 10), be16 (b ! 11) (b ! 12), unat (b ! 13)))"

text \<open>
  \<^verbatim>\<open>OpulentVoiceProtocol.parse_frame\<close>. \<open>None\<close> is the source's \<^verbatim>\<open>return None\<close>;
  \<open>now\<close> is the reading of \<^verbatim>\<open>time.time()\<close>. The slice
  \<^verbatim>\<open>frame_data[HEADER_SIZE:HEADER_SIZE + payload_len]\<close> of a byte string never raises:
  it stops at the end of the data.
\<close>

definition parse_frame :: "real \<Rightarrow> bytes \<Rightarrow> frame option" where
  "parse_frame now frame_data =
     (if length frame_data < HEADER_SIZE then None
      else
        (case struct_unpack_header (take HEADER_SIZE frame_data) of
           Inl StructError \<Rightarrow> None
         | Inr (magic, sid, ftype, seqno, payload_len, reserved) \<Rightarrow>
             if magic \<noteq> MAGIC_BYTES then None
             else Some \<lparr> station_id = sid, frame_type = ftype, sequence = seqno,
                         payload = take payload_len (drop HEADER_SIZE frame_data),
                         timestamp = now \<rparr>))"

text \<open>The payload length that a datagram of at least 14 bytes declares in its header.\<close>

definition declared_payload_len :: "bytes \<Rightarrow> nat" where
  "declared_payload_len frame_data = be16 (frame_data ! 11) (frame_data ! 12)"

text \<open>A header that declares five payload bytes, followed by no payload at all.\<close>

definition truncated_datagram :: bytes where
  "truncated_datagram = [0xFF, 0x5D, 1, 2, 3, 4, 5, 6, 0x01, 0, 7, 0, 5, 0]"

text \<open>
  The sender is not part of this program. Modelled from the spec: the encoder of the
  wire format, \<^verbatim>\<open>magic(2) = 0xFF 0x5D | stationId(6) | frameType(1) | sequence(2) |
  payloadLen(2) | reserved(1) | payload(payloadLen)\<close>, big-endian, with the reserved byte
  zero.
\<close>

definition encode_frame :: "bytes \<Rightarrow> nat \<Rightarrow> nat \<Rightarrow> bytes \<Rightarrow> bytes" where
  "encode_frame sid ftype seqno pl =
     MAGIC_BYTES @ sid @ [of_nat ftype]
       @ [of_nat (seqno div 256), of_nat (seqno mod 256)]
       @ [of_nat (length pl div 256), of_nat (length pl mod 256)]
       @ [0] @ pl"

subsection \<open>Decoding text: \<^verbatim>\<open>bytes.decode('utf-8', errors='ignore')\<close>\<close>

text \<open>
  The result is the list of the code points of the decoded string. The decoder is
  CPython's: a byte below \<^verbatim>\<open>0x80\<close> is itself; a lead byte \<^verbatim>\<open>0xC2..0xF4\<close> takes one,
  two or three continuation bytes (\<^verbatim>\<open>0x80..0xBF\<close>), excluding overlong forms,
  surrogates and code points above \<^verbatim>\<open>0x10FFFF\<close>. With \<^verbatim>\<open>errors='ignore'\<close> an
  invalid start byte is dropped, an invalid continuation drops the bytes of the
  sequence read so far, and a sequence cut off by the end of the data is dropped
  whole. It never raises.
\<close>

definition is_continuation_byte :: "byte \<Rightarrow> bool" where
  "is_continuation_byte b = (0x80 \<le> b \<and> b < 0xC0)"

fun utf8_decode_ignore :: "bytes \<Rightarrow> nat list" where
  "utf8_decode_ignore [] = []"
| "utf8_decode_ignore (ch # s) =
     (if ch < 0x80 then unat ch # utf8_decode_ignore s
      else if ch < 0xE0 then
        (if ch < 0xC2 then utf8_decode_ignore s
         else
           (case s of
              [] \<Rightarrow> []
            | ch2 # s2 \<Rightarrow>
                if \<not> is_continuation_byte ch2 then utf8_decode_ignore s
                else (unat ch * 64 + unat ch2 - (0xC0 * 64 + 0x80)) # utf8_decode_ignore s2))
      else if ch < 0xF0 then
        (case s of
           [] \<Rightarrow> []
         | ch2 # s2 \<Rightarrow>
             if \<not> is_continuation_byte ch2 \<or> (if ch2 < 0xA0 then ch = 0xE0 else ch = 0xED)
             then utf8_decode_ignore s
             else
               (case s2 of
                  [] \<Rightarrow> []
                | ch3 # s3 \<Rightarrow>
                    if \<not> is_continuation_byte ch3 then utf8_decode_ignore s2
                    else (unat ch * 4096 + unat ch2 * 64 + unat ch3
                            - (0xE0 * 4096 + 0x80 * 64 + 0x80)) # utf8_decode_ignore s3))
      else if ch < 0xF5 then
        (case s of
           [] \<Rightarrow> []
         | ch2 # s2 \<Rightarrow>
             if \<not> is_continuation_byte ch2 \<or> (if ch2 < 0x90 then ch = 0xF0 else ch = 0xF4)
             then utf8_decode_ignore s
             else
               (case s2 of
                  [] \<Rightarrow> []
                | ch3 # s3 \<Rightarrow>
                    if \<not> is_continuation_byte ch3 then utf8_decode_ignore s2
                    else
                      (case s3 of
                         [] \<Rightarrow> []
                       | ch4 # s4 \<Rightarrow>
                           if \<not> is_continuation_byte ch4 then utf8_decode_ignore s3
                           else (unat ch * 262144 + unat ch2 * 4096 + unat ch3 * 64 + unat ch4
                                   - (0xF0 * 262144 + 0x80 * 4096 + 0x80 * 64 + 0x80))
                                # utf8_decode_ignore s4)))
      else utf8_decode_ignore s)"

text \<open>A Python string literal of ASCII characters, as code points and as bytes.\<close>

definition str_literal :: "string \<Rightarrow> nat list" where
  "str_literal cs = map of_char cs"

definition bytes_literal :: "string \<Rightarrow> bytes" where
  "bytes_literal cs = map of_char cs"

subsection \<open>The audio player\<close>

text \<open>
  \<^verbatim>\<open>queue.Queue(maxsize=50)\<close> holding decoded chunks, oldest first.
  \<^verbatim>\<open>get_nowait\<close> raises \<^verbatim>\<open>queue.Empty\<close> on an empty queue (\<open>None\<close>);
  \<^verbatim>\<open>put\<close> waits while the queue is full, and with no consumer running it waits
  forever (\<open>None\<close>).
\<close>

definition QUEUE_MAXSIZE :: nat where
  "QUEUE_MAXSIZE = 50"

definition queue_empty :: "bytes list \<Rightarrow> bool" where
  "queue_empty q = (q = [])"

definition queue_full :: "bytes list \<Rightarrow> bool" where
  "queue_full q = (0 < QUEUE_MAXSIZE \<and> QUEUE_MAXSIZE \<le> length q)"

definition queue_get_nowait :: "bytes list \<Rightarrow> (bytes \<times> bytes list) option" where
  "queue_get_nowait q = (case q of [] \<Rightarrow> None | x # q' \<Rightarrow> Some (x, q'))"

definition queue_put :: "bytes list \<Rightarrow> bytes \<Rightarrow> bytes list option" where
  "queue_put q x = (if queue_full q then None else Some (q @ [x]))"

text \<open>
  The fields of \<^verbatim>\<open>AudioPlayer\<close> that its callback and its decode path read or write.
  The \<^verbatim>\<open>stats\<close> dictionary has four fixed keys, here four fields. The OPUS decoder
  is an object of the library with a state of its own, \<open>'d\<close>.
\<close>

record 'd audio_player =
  channels :: nat
  audio_queue :: "bytes list"
  decoder :: 'd
  frames_decoded :: int
  frames_played :: int
  decode_errors :: int
  queue_overflows :: int

text \<open>
  The library call \<^verbatim>\<open>decoder.decode(opus_packet, 1920, decode_fec=False)\<close> is a
  parameter: from the decoder's state and the packet it gives the decoder's next state
  and either the PCM chunk or \<open>None\<close> when it raises.
\<close>

type_synonym 'd opus_decode = "'d \<Rightarrow> bytes \<Rightarrow> 'd \<times> bytes option"

definition AudioPlayer_init :: "'d \<Rightarrow> 'd audio_player" where
  "AudioPlayer_init d =
     \<lparr> channels = 1, audio_queue = [], decoder = d, frames_decoded = 0,
       frames_played = 0, decode_errors = 0, queue_overflows = 0 \<rparr>"

datatype pa_flag = paContinue

definition silence :: "nat \<Rightarrow> nat \<Rightarrow> bytes" where
  "silence frame_count chans = replicate (frame_count * 2 * chans) 0"

text \<open>
  \<^verbatim>\<open>AudioPlayer.audio_callback\<close>; of its arguments only \<^verbatim>\<open>frame_count\<close> is read.
  The \<open>None\<close> branch is the \<^verbatim>\<open>except\<close> clause.
\<close>

definition audio_callback ::
  "nat \<Rightarrow> 'd audio_player \<Rightarrow> (bytes \<times> pa_flag) \<times> 'd audio_player" where
  "audio_callback frame_count p =
     (if \<not> queue_empty (audio_queue p) then
        (case queue_get_nowait (audio_queue p) of
           Some (audio_data, q') \<Rightarrow>
             ((audio_data, paContinue),
              p\<lparr>audio_queue := q', frames_played := frames_played p + 1\<rparr>)
         | None \<Rightarrow> ((silence frame_count (channels p), paContinue), p))
      else ((silence frame_count (channels p), paContinue), p))"

text \<open>
  \<^verbatim>\<open>AudioPlayer.decode_and_queue_audio\<close>. The result \<open>None\<close> is a call that does not
  return (\<^verbatim>\<open>put\<close> on a full queue).
\<close>

definition decode_and_queue_audio ::
  "'d opus_decode \<Rightarrow> bytes \<Rightarrow> 'd audio_player \<Rightarrow> 'd audio_player option" where
  "decode_and_queue_audio dec opus_packet p =
     (case dec (decoder p) opus_packet of
        (d', None) \<Rightarrow> Some (p\<lparr>decoder := d', decode_errors := decode_errors p + 1\<rparr>)
      | (d', Some pcm_audio) \<Rightarrow>
          (let p1 = p\<lparr>decoder := d', frames_decoded := frames_decoded p + 1\<rparr>;
               p2 = (if queue_full (audio_queue p1) then
                       (case queue_get_nowait (audio_queue p1) of
                          Some (old, q') \<Rightarrow>
                            p1\<lparr>audio_queue := q', queue_overflows := queue_overflows p1 + 1\<rparr>
                        | None \<Rightarrow> p1)
                     else p1)
           in case queue_put (audio_queue p2) pcm_audio of
                None \<Rightarrow> None
              | Some q'' \<Rightarrow> Some (p2\<lparr>audio_queue := q''\<rparr>)))"

text \<open>Calling \<^verbatim>\<open>decode_and_queue_audio\<close> on one packet after the other.\<close>

fun enqueue_all :: "'d opus_decode \<Rightarrow> bytes list \<Rightarrow> 'd audio_player \<Rightarrow> 'd audio_player option" where
  "enqueue_all dec [] p = Some p"
| "enqueue_all dec (pkt # pkts) p =
     (case decode_and_queue_audio dec pkt p of
        None \<Rightarrow> None
      | Some p' \<Rightarrow> enqueue_all dec pkts p')"

text \<open>What the decoder answers to a sequence of packets, starting in state \<open>d\<close>.\<close>

fun decode_all :: "'d opus_decode \<Rightarrow> 'd \<Rightarrow> bytes list \<Rightarrow> bytes option list" where
  "decode_all dec d [] = []"
| "decode_all dec d (pkt # pkts) = snd (dec d pkt) # decode_all dec (fst (dec d pkt)) pkts"

subsection \<open>The receiver\<close>

text \<open>
  \<^verbatim>\<open>OpulentVoiceReceiver\<close>: the six fixed keys of its \<^verbatim>\<open>stats\<close> dictionary are six
  fields.
\<close>

record 'd receiver =
  running :: bool
  audio_player :: "'d audio_player"
  packets_received :: int
  valid_frames :: int
  audio_frames :: int
  control_frames :: int
  invalid_frames :: int
  bytes_received :: int
  ptt_active :: bool
  last_audio_time :: real

definition OpulentVoiceReceiver_init :: "'d \<Rightarrow> 'd receiver" where
  "OpulentVoiceReceiver_init d =
     \<lparr> running = False, audio_player = AudioPlayer_init d, packets_received = 0,
       valid_frames = 0, audio_frames = 0, control_frames = 0, invalid_frames = 0,
       bytes_received = 0, ptt_active = False, last_audio_time = 0 \<rparr>"

text \<open>
  \<^verbatim>\<open>OpulentVoiceReceiver.process_frame\<close>. \<open>t_parse\<close> and \<open>t_audio\<close> are the
  readings of the clock in \<^verbatim>\<open>parse_frame\<close> and at an audio frame; the sender's
  address is only printed. \<open>None\<close> is a call that does not return.
\<close>

definition process_frame ::
  "'d opus_decode \<Rightarrow> real \<Rightarrow> real \<Rightarrow> bytes \<Rightarrow> 'd receiver \<Rightarrow> 'd receiver option" where
  "process_frame dec t_parse t_audio frame_data s =
     (case parse_frame t_parse frame_data of
        None \<Rightarrow> Some (s\<lparr>invalid_frames := invalid_frames s + 1\<rparr>)
      | Some parsed_frame \<Rightarrow>
          (let s1 = s\<lparr>valid_frames := valid_frames s + 1\<rparr> in
           if frame_type parsed_frame = FRAME_TYPE_AUDIO then
             (let s2 = s1\<lparr>audio_frames := audio_frames s1 + 1, last_audio_time := t_audio\<rparr>
              in case decode_and_queue_audio dec (payload parsed_frame) (audio_player s2) of
                   None \<Rightarrow> None
                 | Some p' \<Rightarrow> Some (s2\<lparr>audio_player := p'\<rparr>))
           else if frame_type parsed_frame = FRAME_TYPE_CONTROL then
             (let s2 = s1\<lparr>control_frames := control_frames s1 + 1\<rparr>;
                  message = utf8_decode_ignore (payload parsed_frame)
              in if message = str_literal ''PTT_START'' then Some (s2\<lparr>ptt_active := True\<rparr>)
                 else if message = str_literal ''PTT_STOP'' then Some (s2\<lparr>ptt_active := False\<rparr>)
                 else Some s2)
           else if frame_type parsed_frame = FRAME_TYPE_TEXT then Some s1
           else Some s1))"

text \<open>
  What \<^verbatim>\<open>socket.recvfrom(4096)\<close> does in one round of \<^verbatim>\<open>listen_loop\<close>: it returns
  the bytes of a datagram, or raises \<^verbatim>\<open>socket.timeout\<close>, or raises another
  exception.
\<close>

datatype recv_result = Received bytes | SocketTimeout | SocketError

text \<open>The body of the loop: both \<^verbatim>\<open>except\<close> clauses leave the state as it is.\<close>

definition listen_iteration ::
  "'d opus_decode \<Rightarrow> real \<Rightarrow> real \<Rightarrow> recv_result \<Rightarrow> 'd receiver \<Rightarrow> 'd receiver option" where
  "listen_iteration dec t_parse t_audio r s =
     (case r of
        Received data \<Rightarrow>
          (let s1 = s\<lparr>packets_received := packets_received s + 1\<rparr>;
               s2 = s1\<lparr>bytes_received := bytes_received s1 + int (length data)\<rparr>
           in process_frame dec t_parse t_audio data s2)
      | SocketTimeout \<Rightarrow> Some s
      | SocketError \<Rightarrow> Some s)"

text \<open>
  \<^verbatim>\<open>listen_loop\<close> over the outcomes of its successive \<^verbatim>\<open>recvfrom\<close> calls, each
  with the two clock readings of its round. The loop ends when \<^verbatim>\<open>running\<close> is
  false; the list is the part of the run that is looked at.
\<close>

fun listen_loop ::
  "'d opus_decode \<Rightarrow> (recv_result \<times> real \<times> real) list \<Rightarrow> 'd receiver \<Rightarrow> 'd receiver option" where
  "listen_loop dec [] s = Some s"
| "listen_loop dec ((r, t_parse, t_audio) # rest) s =
     (if running s then
        (case listen_iteration dec t_parse t_audio r s of
           None \<Rightarrow> None
         | Some s' \<Rightarrow> listen_loop dec rest s')
      else Some s)"

text \<open>The datagrams among the outcomes, and the bytes they hold.\<close>

fun received_data :: "(recv_result \<times> real \<times> real) list \<Rightarrow> bytes list" where
  "received_data [] = []"
| "received_data ((Received data, t_parse, t_audio) # rest) = data # received_data rest"
| "received_data ((r, t_parse, t_audio) # rest) = received_data rest"

subsection \<open>Concrete inputs\<close>

text \<open>
  Two decoders to run the model with: one returns every packet as its own PCM chunk,
  one raises on every packet. Their state is \<open>unit\<close>.
\<close>

definition echo_decode :: "unit opus_decode" where
  "echo_decode d pkt = (d, Some pkt)"

definition failing_decode :: "unit opus_decode" where
  "failing_decode d pkt = (d, None)"

text \<open>
  Datagrams from station \<open>01 02 03 04 05 06\<close> with sequence number 7: a Text frame and
  an Audio frame with a two-byte payload, a Control frame whose payload is
  \<^verbatim>\<open>PTT_START\<close>, and a Control frame whose payload is the byte \<^verbatim>\<open>0xFF\<close> followed
  by \<^verbatim>\<open>PTT_START\<close>.
\<close>

definition text_datagram :: bytes where
  "text_datagram = [0xFF, 0x5D, 1, 2, 3, 4, 5, 6, 0x02, 0, 7, 0, 2, 0, 0x68, 0x69]"

definition audio_datagram :: bytes where
  "audio_datagram = [0xFF, 0x5D, 1, 2, 3, 4, 5, 6, 0x01, 0, 7, 0, 2, 0, 0x68, 0x69]"

definition ptt_start_datagram :: bytes where
  "ptt_start_datagram =
     [0xFF, 0x5D, 1, 2, 3, 4, 5, 6, 0x03, 0, 7, 0, 9, 0] @ bytes_literal ''PTT_START''"

definition noisy_ptt_datagram :: bytes where
  "noisy_ptt_datagram =
     [0xFF, 0x5D, 1, 2, 3, 4, 5, 6, 0x03, 0, 7, 0, 10, 0, 0xFF] @ bytes_literal ''PTT_START''"

text \<open>Sixty one-byte packets, all different.\<close>

definition sixty_packets :: "bytes list" where
  "sixty_packets = map (\<lambda>i. [of_nat i]) [0..<60]"

section \<open>Parsing\<close>

lemma parse_frame_long:
  assumes "HEADER_SIZE \<le> length frame_data"
  shows "parse_frame now frame_data =
           (if take 2 frame_data \<noteq> MAGIC_BYTES then None
            else Some \<lparr> station_id = take 6 (drop 2 frame_data),
                        frame_type = unat (frame_data ! 8),
                        sequence = be16 (frame_data ! 9) (frame_data ! 10),
                        payload = take (declared_payload_len frame_data) (drop HEADER_SIZE frame_data),
                        timestamp = now \<rparr>)"
  using assms
  by (simp add: parse_frame_def struct_unpack_header_def declared_payload_len_def
      HEADER_SIZE_def min_def take_drop)

lemma parse_text_datagram:
  "parse_frame 0 text_datagram =
     Some \<lparr>station_id = [1, 2, 3, 4, 5, 6], frame_type = 2, sequence = 7,
           payload = [0x68, 0x69], timestamp = 0\<rparr>"
  by (simp add: parse_frame_def text_datagram_def struct_unpack_header_def HEADER_SIZE_def
      MAGIC_BYTES_def be16_def)

lemma parse_audio_datagram:
  "parse_frame 0 audio_datagram =
     Some \<lparr>station_id = [1, 2, 3, 4, 5, 6], frame_type = 1, sequence = 7,
           payload = [0x68, 0x69], timestamp = 0\<rparr>"
  by (simp add: parse_frame_def audio_datagram_def struct_unpack_header_def HEADER_SIZE_def
      MAGIC_BYTES_def be16_def)

lemma parse_ptt_start_datagram:
  "parse_frame 0 ptt_start_datagram =
     Some \<lparr>station_id = [1, 2, 3, 4, 5, 6], frame_type = 3, sequence = 7,
           payload = bytes_literal ''PTT_START'', timestamp = 0\<rparr>"
  by (simp add: parse_frame_def ptt_start_datagram_def struct_unpack_header_def HEADER_SIZE_def
      MAGIC_BYTES_def be16_def bytes_literal_def)

lemma parse_noisy_ptt_datagram:
  "parse_frame 0 noisy_ptt_datagram =
     Some \<lparr>station_id = [1, 2, 3, 4, 5, 6], frame_type = 3, sequence = 7,
           payload = 0xFF # bytes_literal ''PTT_START'', timestamp = 0\<rparr>"
  by (simp add: parse_frame_def noisy_ptt_datagram_def struct_unpack_header_def HEADER_SIZE_def
      MAGIC_BYTES_def be16_def bytes_literal_def)

text \<open>
  C8: an input shorter than the 14-byte header, and an input of at least 14 bytes whose
  first two bytes are not \<^verbatim>\<open>FF 5D\<close>, is rejected: \<^verbatim>\<open>parse_frame\<close> returns
  \<^verbatim>\<open>None\<close>. No exception escapes, for any byte string: the only call that can raise
  is \<^verbatim>\<open>struct.unpack\<close>, and on the 14 bytes that \<^verbatim>\<open>parse_frame\<close> hands it, it
  never raises; \<^verbatim>\<open>parse_frame\<close> returns \<^verbatim>\<open>None\<close> exactly for the short inputs and
  the inputs with another magic, and a frame for every other input.
\<close>

theorem parse_frame_rejects_short_or_bad_magic:
  "(length frame_data < HEADER_SIZE \<or>
      (HEADER_SIZE \<le> length frame_data \<and> take 2 frame_data \<noteq> MAGIC_BYTES)
      \<longrightarrow> parse_frame now frame_data = None) \<and>
   (HEADER_SIZE \<le> length frame_data
      \<longrightarrow> struct_unpack_header (take HEADER_SIZE frame_data) \<noteq> Inl StructError) \<and>
   ((parse_frame now frame_data = None) =
      (length frame_data < HEADER_SIZE \<or> take 2 frame_data \<noteq> MAGIC_BYTES)) \<and>
   (HEADER_SIZE \<le> length frame_data \<and> take 2 frame_data = MAGIC_BYTES
      \<longrightarrow> (\<exists>f. parse_frame now frame_data = Some f))"
proof (cases "length frame_data < HEADER_SIZE")
  case True
  then show ?thesis by (simp add: parse_frame_def)
next
  case False
  then have long: "HEADER_SIZE \<le> length frame_data" by simp
  have unpack: "struct_unpack_header (take HEADER_SIZE frame_data) \<noteq> Inl StructError"
    using long by (simp add: struct_unpack_header_def HEADER_SIZE_def)
  show ?thesis using False unpack by (simp add: parse_frame_long [OF long])
qed

text \<open>
  A 13-byte input with the right magic, a 14-byte input with a wrong second byte, and
  the Text datagram, which is well formed.
\<close>

theorem parse_frame_rejects_short_or_bad_magic_witness:
  "length [0xFF, 0x5D, 1, 2, 3, 4, 5, 6, 1, 0, 7, 0, 0 :: byte] < HEADER_SIZE \<and>
   parse_frame 0 [0xFF, 0x5D, 1, 2, 3, 4, 5, 6, 1, 0, 7, 0, 0] = None \<and>
   HEADER_SIZE \<le> length [0xFF, 0x5E, 1, 2, 3, 4, 5, 6, 1, 0, 7, 0, 0, 0 :: byte] \<and>
   take 2 [0xFF, 0x5E, 1, 2, 3, 4, 5, 6, 1, 0, 7, 0, 0, 0 :: byte] \<noteq> MAGIC_BYTES \<and>
   parse_frame 0 [0xFF, 0x5E, 1, 2, 3, 4, 5, 6, 1, 0, 7, 0, 0, 0] = None \<and>
   struct_unpack_header (take HEADER_SIZE [0xFF, 0x5E, 1, 2, 3, 4, 5, 6, 1, 0, 7, 0, 0, 0])
     \<noteq> Inl StructError \<and>
   HEADER_SIZE \<le> length text_datagram \<and> take 2 text_datagram = MAGIC_BYTES \<and>
   struct_unpack_header (take HEADER_SIZE text_datagram) \<noteq> Inl StructError \<and>
   (\<exists>f. parse_frame 0 text_datagram = Some f)"
proof -
  have t: "HEADER_SIZE \<le> length text_datagram" "take 2 text_datagram = MAGIC_BYTES"
    by (simp_all add: text_datagram_def HEADER_SIZE_def MAGIC_BYTES_def)
  show ?thesis
    using parse_frame_rejects_short_or_bad_magic
        [of "[0xFF, 0x5D, 1, 2, 3, 4, 5, 6, 1, 0, 7, 0, 0]" 0]
      parse_frame_rejects_short_or_bad_magic
        [of "[0xFF, 0x5E, 1, 2, 3, 4, 5, 6, 1, 0, 7, 0, 0, 0]" 0]
      parse_frame_rejects_short_or_bad_magic [of text_datagram 0] t
    by (simp add: HEADER_SIZE_def MAGIC_BYTES_def)
qed

text \<open>
  C1, as the code has it: \<^verbatim>\<open>parse_frame\<close> compares no lengths, and the slice after the
  header stops at the end of the data. When \<^verbatim>\<open>parse_frame\<close> succeeds, the payload is
  the first \<open>payload_len\<close> bytes after the header, as far as they exist: its length is
  the smaller of the declared length and the number of bytes that follow the header, and
  it is the declared length whenever that many bytes are there.
\<close>

theorem parse_frame_payload_slice:
  assumes "parse_frame now frame_data = Some f"
  shows "payload f = take (declared_payload_len frame_data) (drop HEADER_SIZE frame_data) \<and>
         length (payload f) = min (declared_payload_len frame_data) (length frame_data - HEADER_SIZE) \<and>
         (declared_payload_len frame_data \<le> length frame_data - HEADER_SIZE \<longrightarrow>
            length (payload f) = declared_payload_len frame_data)"
proof (cases "length frame_data < HEADER_SIZE")
  case True
  then show ?thesis using assms by (simp add: parse_frame_def)
next
  case False
  then show ?thesis using assms by (auto simp: parse_frame_long split: if_splits)
qed

text \<open>The Text datagram declares two payload bytes and carries two.\<close>

theorem parse_frame_payload_slice_witness:
  "parse_frame 0 text_datagram \<noteq> None \<and>
   map_option payload (parse_frame 0 text_datagram) = Some [0x68, 0x69] \<and>
   declared_payload_len text_datagram = 2"
proof -
  have d: "declared_payload_len text_datagram = 2"
    by (simp add: declared_payload_len_def text_datagram_def be16_def)
  show ?thesis
    using parse_frame_payload_slice [OF parse_text_datagram] d
    by (simp add: parse_text_datagram)
qed

text \<open>
  C1 as stated fails: a header that declares five payload bytes, with no byte after it,
  is parsed into a frame, and the frame's payload is empty.
\<close>

theorem parse_frame_accepts_truncated_payload:
  "declared_payload_len truncated_datagram = 5 \<and>
   length truncated_datagram - HEADER_SIZE = 0 \<and>
   parse_frame 0 truncated_datagram =
     Some \<lparr>station_id = [1, 2, 3, 4, 5, 6], frame_type = 1, sequence = 7, payload = [],
           timestamp = 0\<rparr>"
  by (simp add: parse_frame_def truncated_datagram_def struct_unpack_header_def HEADER_SIZE_def
      MAGIC_BYTES_def be16_def declared_payload_len_def)

lemma be16_of_nat: "n < 65536 \<Longrightarrow> be16 (of_nat (n div 256)) (of_nat (n mod 256)) = n"
  by (simp add: be16_def unat_of_nat)

lemma unat_of_nat_byte: "n < 256 \<Longrightarrow> unat (of_nat n :: byte) = n"
  by (simp add: unat_of_nat)

text \<open>
  C5: encoding a six-byte station id, a frame type below 256, a sequence number below
  65536 and a payload of at most 4082 bytes in the wire format, and parsing the result,
  gives a frame with the same station id, type, sequence number and payload.
\<close>

theorem encode_parse_roundtrip:
  assumes "length sid = 6" and "ftype < 256" and "seqno < 65536" and "length pl \<le> 4082"
  shows "parse_frame now (encode_frame sid ftype seqno pl) =
         Some \<lparr>station_id = sid, frame_type = ftype, sequence = seqno, payload = pl,
               timestamp = now\<rparr>"
proof -
  obtain a b c d e f where sid: "sid = [a, b, c, d, e, f]"
    using assms(1) by (auto simp: length_Suc_conv eval_nat_numeral)
  have len: "length pl < 65536" using assms(4) by simp
  show ?thesis
    using assms(2) assms(3) len
    by (simp add: sid encode_frame_def parse_frame_long HEADER_SIZE_def MAGIC_BYTES_def
        declared_payload_len_def be16_of_nat unat_of_nat_byte)
qed

text \<open>A Control frame with sequence number 513 and the payload \<^verbatim>\<open>PTT_STOP\<close>.\<close>

theorem encode_parse_roundtrip_witness:
  "length [1, 2, 3, 4, 5, 6 :: byte] = 6 \<and> (3 :: nat) < 256 \<and> (513 :: nat) < 65536 \<and>
   length (bytes_literal ''PTT_STOP'') \<le> 4082 \<and>
   parse_frame 0 (encode_frame [1, 2, 3, 4, 5, 6] 3 513 (bytes_literal ''PTT_STOP'')) =
     Some \<lparr>station_id = [1, 2, 3, 4, 5, 6], frame_type = 3, sequence = 513,
           payload = bytes_literal ''PTT_STOP'', timestamp = 0\<rparr>"
  using encode_parse_roundtrip [of "[1, 2, 3, 4, 5, 6]" 3 513 "bytes_literal ''PTT_STOP''" 0]
  by (simp add: bytes_literal_def)

section \<open>The playback queue\<close>

lemma decode_and_queue_audio_success:
  assumes "dec (decoder p) pkt = (d', Some c)" and "length (audio_queue p) \<le> QUEUE_MAXSIZE"
  shows "decode_and_queue_audio dec pkt p =
         Some (p\<lparr>decoder := d', frames_decoded := frames_decoded p + 1,
                 audio_queue := drop (length (audio_queue p) + 1 - QUEUE_MAXSIZE) (audio_queue p @ [c]),
                 queue_overflows := queue_overflows p + (if length (audio_queue p) = QUEUE_MAXSIZE then 1 else 0)\<rparr>)"
proof (cases "audio_queue p")
  case Nil
  then show ?thesis using assms
    by (simp add: decode_and_queue_audio_def queue_full_def queue_put_def QUEUE_MAXSIZE_def)
next
  case (Cons x q)
  then show ?thesis using assms
    by (auto simp: decode_and_queue_audio_def queue_full_def queue_put_def queue_get_nowait_def
        QUEUE_MAXSIZE_def Let_def)
qed

lemma decode_and_queue_audio_failure:
  assumes "dec (decoder p) pkt = (d', None)"
  shows "decode_and_queue_audio dec pkt p =
           Some (p\<lparr>decoder := d', decode_errors := decode_errors p + 1\<rparr>)"
  using assms by (simp add: decode_and_queue_audio_def)

lemma decode_and_queue_audio_returns:
  assumes "length (audio_queue p) \<le> QUEUE_MAXSIZE"
  shows "\<exists>p'. decode_and_queue_audio dec pkt p = Some p' \<and> length (audio_queue p') \<le> QUEUE_MAXSIZE"
proof (cases "dec (decoder p) pkt")
  case (Pair d' r)
  show ?thesis
  proof (cases r)
    case None
    then show ?thesis using Pair assms by (simp add: decode_and_queue_audio_failure)
  next
    case (Some c)
    then show ?thesis using Pair assms
      by (simp add: decode_and_queue_audio_success QUEUE_MAXSIZE_def)
  qed
qed

text \<open>
  The queue after a run of successful decodes, from any queue within its bound: the
  arrivals are appended and the front is cut back to 50 entries, one eviction counted for
  each entry cut.
\<close>

lemma enqueue_all_from_any_queue:
  assumes "decode_all dec (decoder p) pkts = map Some chunks"
    and "length (audio_queue p) \<le> QUEUE_MAXSIZE"
  shows "\<exists>p'. enqueue_all dec pkts p = Some p' \<and>
           audio_queue p' =
             drop (length (audio_queue p) + length chunks - QUEUE_MAXSIZE) (audio_queue p @ chunks) \<and>
           queue_overflows p' =
             queue_overflows p +
               max 0 (int (length (audio_queue p)) + int (length chunks) - int QUEUE_MAXSIZE)"
  using assms
proof (induction pkts arbitrary: p chunks)
  case Nil
  then show ?case by simp
next
  case (Cons pkt pkts)
  from Cons.prems(1) obtain c cs where chunks: "chunks = c # cs"
    and r: "snd (dec (decoder p) pkt) = Some c"
    and rest: "decode_all dec (fst (dec (decoder p) pkt)) pkts = map Some cs"
    by (cases chunks) auto
  define d' where "d' = fst (dec (decoder p) pkt)"
  have dec: "dec (decoder p) pkt = (d', Some c)"
    using r by (simp add: d'_def prod_eq_iff)
  define p1 where "p1 = p\<lparr>decoder := d', frames_decoded := frames_decoded p + 1,
                 audio_queue := drop (length (audio_queue p) + 1 - QUEUE_MAXSIZE) (audio_queue p @ [c]),
                 queue_overflows := queue_overflows p + (if length (audio_queue p) = QUEUE_MAXSIZE then 1 else 0)\<rparr>"
  have step: "decode_and_queue_audio dec pkt p = Some p1"
    unfolding p1_def using dec Cons.prems(2) by (rule decode_and_queue_audio_success)
  have len1: "length (audio_queue p1) \<le> QUEUE_MAXSIZE"
    using Cons.prems(2) by (simp add: p1_def QUEUE_MAXSIZE_def)
  have rest1: "decode_all dec (decoder p1) pkts = map Some cs"
    using rest by (simp add: p1_def d'_def)
  from Cons.IH [OF rest1 len1] obtain p' where
    run: "enqueue_all dec pkts p1 = Some p'"
    and q: "audio_queue p' =
              drop (length (audio_queue p1) + length cs - QUEUE_MAXSIZE) (audio_queue p1 @ cs)"
    and ov: "queue_overflows p' =
               queue_overflows p1 +
                 max 0 (int (length (audio_queue p1)) + int (length cs) - int QUEUE_MAXSIZE)"
    by blast
  have q': "audio_queue p' =
              drop (length (audio_queue p) + length chunks - QUEUE_MAXSIZE) (audio_queue p @ chunks)"
  proof (cases "length (audio_queue p) = QUEUE_MAXSIZE")
    case True
    then obtain x xs where xs: "audio_queue p = x # xs"
      by (cases "audio_queue p") (auto simp: QUEUE_MAXSIZE_def)
    show ?thesis using True q by (simp add: p1_def chunks xs)
  next
    case False
    then have "length (audio_queue p) < QUEUE_MAXSIZE" using Cons.prems(2) by simp
    then show ?thesis using q by (simp add: p1_def chunks)
  qed
  have ov': "queue_overflows p' =
               queue_overflows p +
                 max 0 (int (length (audio_queue p)) + int (length chunks) - int QUEUE_MAXSIZE)"
  proof (cases "length (audio_queue p) = QUEUE_MAXSIZE")
    case True
    then show ?thesis using ov by (simp add: p1_def chunks QUEUE_MAXSIZE_def)
  next
    case False
    then have "length (audio_queue p) < QUEUE_MAXSIZE" using Cons.prems(2) by simp
    then show ?thesis using ov by (simp add: p1_def chunks QUEUE_MAXSIZE_def max_def)
  qed
  show ?case using step run q' ov' by simp
qed

text \<open>
  C4: from an empty queue and an eviction counter of 0, after \<open>n\<close> packets that all decode,
  every call has returned, the queue holds \<open>min n 50\<close> chunks, never more than 50, namely
  the last \<open>min n 50\<close> decoded chunks in the order they arrived, and
  \<^verbatim>\<open>queue_overflows\<close> is \<open>max 0 (n - 50)\<close>.
\<close>

theorem playback_queue_after_enqueues:
  assumes "audio_queue p = []" and "queue_overflows p = 0"
    and "decode_all dec (decoder p) pkts = map Some chunks"
  shows "\<exists>p'. enqueue_all dec pkts p = Some p' \<and>
           length (audio_queue p') = min (length chunks) 50 \<and>
           length (audio_queue p') \<le> 50 \<and>
           audio_queue p' = drop (length chunks - 50) chunks \<and>
           queue_overflows p' = max 0 (int (length chunks) - 50)"
proof -
  have "length (audio_queue p) \<le> QUEUE_MAXSIZE" using assms(1) by simp
  from enqueue_all_from_any_queue [OF assms(3) this] obtain p' where
    "enqueue_all dec pkts p = Some p'"
    "audio_queue p' = drop (length chunks - 50) chunks"
    "queue_overflows p' = max 0 (int (length chunks) - 50)"
    using assms(1,2) by (auto simp: QUEUE_MAXSIZE_def)
  then show ?thesis by auto
qed

lemma decode_all_echo: "decode_all echo_decode d pkts = map Some pkts"
  by (induction pkts arbitrary: d) (simp_all add: echo_decode_def)

text \<open>Sixty enqueues into the queue of a new player: 50 chunks are queued, 10 were evicted.\<close>

theorem playback_queue_after_enqueues_witness:
  "audio_queue (AudioPlayer_init ()) = [] \<and> queue_overflows (AudioPlayer_init ()) = 0 \<and>
   decode_all echo_decode (decoder (AudioPlayer_init ())) sixty_packets = map Some sixty_packets \<and>
   (\<exists>p'. enqueue_all echo_decode sixty_packets (AudioPlayer_init ()) = Some p' \<and>
      length (audio_queue p') = 50 \<and> queue_overflows p' = 10)"
proof -
  have h1: "audio_queue (AudioPlayer_init ()) = []" by (simp add: AudioPlayer_init_def)
  have h2: "queue_overflows (AudioPlayer_init ()) = 0" by (simp add: AudioPlayer_init_def)
  have h3: "decode_all echo_decode (decoder (AudioPlayer_init ())) sixty_packets =
              map Some sixty_packets"
    by (rule decode_all_echo)
  have n: "length sixty_packets = 60" by (simp add: sixty_packets_def)
  show ?thesis
    using playback_queue_after_enqueues [OF h1 h2 h3] h1 h2 h3 by (auto simp: n)
qed

text \<open>
  C7: with an empty queue the callback returns \<open>frame_count * 2 * channels\<close> zero bytes
  and \<^verbatim>\<open>paContinue\<close>, and leaves the player as it is. The branch calls nothing that
  waits: \<^verbatim>\<open>empty()\<close> only looks at the queue.
\<close>

theorem audio_callback_silence_when_empty:
  assumes "audio_queue p = []"
  shows "audio_callback frame_count p =
           ((replicate (frame_count * 2 * channels p) 0, paContinue), p) \<and>
         length (fst (fst (audio_callback frame_count p))) = frame_count * 2 * channels p \<and>
         (\<forall>b \<in> set (fst (fst (audio_callback frame_count p))). b = 0)"
  using assms by (simp add: audio_callback_def queue_empty_def silence_def)

text \<open>A request for 1920 frames from a new mono player: 3840 bytes.\<close>

theorem audio_callback_silence_when_empty_witness:
  "audio_queue (AudioPlayer_init ()) = [] \<and>
   length (fst (fst (audio_callback 1920 (AudioPlayer_init ())))) = 3840"
  using audio_callback_silence_when_empty [of "AudioPlayer_init ()" 1920]
  by (simp add: AudioPlayer_init_def)

text \<open>
  C9: with a non-empty queue the callback returns the oldest chunk as it was queued,
  removes it and counts one frame played; the answer is the same for every
  \<^verbatim>\<open>frame_count\<close>, so a chunk whose length is not \<open>frame_count * 2 * channels\<close> is
  returned with that other length.
\<close>

theorem audio_callback_returns_oldest_chunk:
  assumes "audio_queue p = chunk # q"
  shows "audio_callback frame_count p =
           ((chunk, paContinue), p\<lparr>audio_queue := q, frames_played := frames_played p + 1\<rparr>) \<and>
         audio_callback frame_count p = audio_callback frame_count' p \<and>
         (length chunk \<noteq> frame_count * 2 * channels p \<longrightarrow>
            length (fst (fst (audio_callback frame_count p))) \<noteq> frame_count * 2 * channels p)"
  using assms by (simp add: audio_callback_def queue_empty_def queue_get_nowait_def)

text \<open>A three-byte chunk is returned to a request for 1920 frames.\<close>

theorem audio_callback_returns_oldest_chunk_witness:
  "audio_queue ((AudioPlayer_init ())\<lparr>audio_queue := [[1, 2, 3]]\<rparr>) = [[1, 2, 3]] \<and>
   fst (fst (audio_callback 1920 ((AudioPlayer_init ())\<lparr>audio_queue := [[1, 2, 3]]\<rparr>))) = [1, 2, 3] \<and>
   length (fst (fst (audio_callback 1920 ((AudioPlayer_init ())\<lparr>audio_queue := [[1, 2, 3]]\<rparr>))))
     \<noteq> 1920 * 2 * channels ((AudioPlayer_init ())\<lparr>audio_queue := [[1, 2, 3]]\<rparr>)"
  using audio_callback_returns_oldest_chunk
    [of "(AudioPlayer_init ())\<lparr>audio_queue := [[1, 2, 3]]\<rparr>" "[1, 2, 3]" "[]" 1920]
  by (simp add: AudioPlayer_init_def)

section \<open>Dispatch\<close>

lemma process_frame_invalid:
  assumes "parse_frame t_parse frame_data = None"
  shows "process_frame dec t_parse t_audio frame_data s =
           Some (s\<lparr>invalid_frames := invalid_frames s + 1\<rparr>)"
  using assms by (simp add: process_frame_def)

lemma process_frame_audio:
  assumes "parse_frame t_parse frame_data = Some f" and "frame_type f = FRAME_TYPE_AUDIO"
  shows "process_frame dec t_parse t_audio frame_data s =
           map_option (\<lambda>p'. s\<lparr>valid_frames := valid_frames s + 1, audio_frames := audio_frames s + 1,
                               last_audio_time := t_audio, audio_player := p'\<rparr>)
             (decode_and_queue_audio dec (payload f) (audio_player s))"
  using assms by (simp add: process_frame_def Let_def split: option.splits)

lemma process_frame_control:
  assumes "parse_frame t_parse frame_data = Some f" and "frame_type f = FRAME_TYPE_CONTROL"
  shows "process_frame dec t_parse t_audio frame_data s =
           Some (s\<lparr>valid_frames := valid_frames s + 1, control_frames := control_frames s + 1,
                   ptt_active := (if utf8_decode_ignore (payload f) = str_literal ''PTT_START'' then True
                                  else if utf8_decode_ignore (payload f) = str_literal ''PTT_STOP'' then False
                                  else ptt_active s)\<rparr>)"
  using assms
  by (simp add: process_frame_def Let_def FRAME_TYPE_CONTROL_def FRAME_TYPE_AUDIO_def)

lemma process_frame_other:
  assumes "parse_frame t_parse frame_data = Some f"
    and "frame_type f \<noteq> FRAME_TYPE_AUDIO" and "frame_type f \<noteq> FRAME_TYPE_CONTROL"
  shows "process_frame dec t_parse t_audio frame_data s =
           Some (s\<lparr>valid_frames := valid_frames s + 1\<rparr>)"
  using assms by (simp add: process_frame_def Let_def)

lemma process_frame_returns:
  assumes "length (audio_queue (audio_player s)) \<le> QUEUE_MAXSIZE"
  shows "\<exists>s'. process_frame dec t_parse t_audio frame_data s = Some s' \<and>
           packets_received s' = packets_received s \<and> bytes_received s' = bytes_received s \<and>
           running s' = running s \<and>
           length (audio_queue (audio_player s')) \<le> QUEUE_MAXSIZE"
proof (cases "parse_frame t_parse frame_data")
  case None
  then show ?thesis using assms by (simp add: process_frame_invalid)
next
  case (Some f)
  consider (audio) "frame_type f = FRAME_TYPE_AUDIO"
    | (control) "frame_type f \<noteq> FRAME_TYPE_AUDIO" "frame_type f = FRAME_TYPE_CONTROL"
    | (other) "frame_type f \<noteq> FRAME_TYPE_AUDIO" "frame_type f \<noteq> FRAME_TYPE_CONTROL"
    by blast
  then show ?thesis
  proof cases
    case audio
    obtain p' where "decode_and_queue_audio dec (payload f) (audio_player s) = Some p'"
      "length (audio_queue p') \<le> QUEUE_MAXSIZE"
      using decode_and_queue_audio_returns [OF assms] by blast
    then show ?thesis by (simp add: process_frame_audio [OF Some audio])
  next
    case control
    then show ?thesis using assms by (simp add: process_frame_control [OF Some control(2)])
  next
    case other
    then show ?thesis using assms by (simp add: process_frame_other [OF Some other])
  qed
qed

text \<open>
  C2, as the code has it: the receiver counts Audio and Control frames and has no counter
  for Text, Data or unknown types. With the queue within its bound, a datagram that
  parses makes \<^verbatim>\<open>process_frame\<close> return with \<^verbatim>\<open>valid_frames\<close> one higher,
  \<^verbatim>\<open>audio_frames\<close> one higher exactly for an Audio frame, \<^verbatim>\<open>control_frames\<close> one
  higher exactly for a Control frame, and \<^verbatim>\<open>invalid_frames\<close>, \<^verbatim>\<open>packets_received\<close>
  and \<^verbatim>\<open>bytes_received\<close> as they were. A datagram that does not parse changes
  \<^verbatim>\<open>invalid_frames\<close>, by one, and nothing else in the receiver.
\<close>

theorem process_frame_counters:
  assumes "length (audio_queue (audio_player s)) \<le> 50"
  shows "(parse_frame t_parse frame_data = None \<longrightarrow>
            process_frame dec t_parse t_audio frame_data s =
              Some (s\<lparr>invalid_frames := invalid_frames s + 1\<rparr>)) \<and>
         (\<forall>f. parse_frame t_parse frame_data = Some f \<longrightarrow>
            (\<exists>s'. process_frame dec t_parse t_audio frame_data s = Some s' \<and>
               valid_frames s' = valid_frames s + 1 \<and>
               invalid_frames s' = invalid_frames s \<and>
               audio_frames s' = audio_frames s + (if frame_type f = FRAME_TYPE_AUDIO then 1 else 0) \<and>
               control_frames s' = control_frames s + (if frame_type f = FRAME_TYPE_CONTROL then 1 else 0) \<and>
               packets_received s' = packets_received s \<and>
               bytes_received s' = bytes_received s))"
proof (intro conjI allI impI)
  assume "parse_frame t_parse frame_data = None"
  then show "process_frame dec t_parse t_audio frame_data s =
              Some (s\<lparr>invalid_frames := invalid_frames s + 1\<rparr>)"
    by (rule process_frame_invalid)
next
  fix f assume Some: "parse_frame t_parse frame_data = Some f"
  have bound: "length (audio_queue (audio_player s)) \<le> QUEUE_MAXSIZE"
    using assms by (simp add: QUEUE_MAXSIZE_def)
  consider (audio) "frame_type f = FRAME_TYPE_AUDIO"
    | (control) "frame_type f \<noteq> FRAME_TYPE_AUDIO" "frame_type f = FRAME_TYPE_CONTROL"
    | (other) "frame_type f \<noteq> FRAME_TYPE_AUDIO" "frame_type f \<noteq> FRAME_TYPE_CONTROL"
    by blast
  then show "\<exists>s'. process_frame dec t_parse t_audio frame_data s = Some s' \<and>
               valid_frames s' = valid_frames s + 1 \<and>
               invalid_frames s' = invalid_frames s \<and>
               audio_frames s' = audio_frames s + (if frame_type f = FRAME_TYPE_AUDIO then 1 else 0) \<and>
               control_frames s' = control_frames s + (if frame_type f = FRAME_TYPE_CONTROL then 1 else 0) \<and>
               packets_received s' = packets_received s \<and>
               bytes_received s' = bytes_received s"
  proof cases
    case audio
    obtain p' where "decode_and_queue_audio dec (payload f) (audio_player s) = Some p'"
      using decode_and_queue_audio_returns [OF bound] by blast
    then show ?thesis using audio
      by (simp add: process_frame_audio [OF Some audio] FRAME_TYPE_AUDIO_def FRAME_TYPE_CONTROL_def)
  next
    case control
    then show ?thesis by (simp add: process_frame_control [OF Some control(2)])
  next
    case other
    then show ?thesis by (simp add: process_frame_other [OF Some other])
  qed
qed

text \<open>
  A new receiver: the empty datagram counts as invalid, the Audio datagram as one valid
  frame and one audio frame.
\<close>

theorem process_frame_counters_witness:
  "length (audio_queue (audio_player (OpulentVoiceReceiver_init ()))) \<le> 50 \<and>
   parse_frame 0 [] = None \<and>
   process_frame echo_decode 0 0 [] (OpulentVoiceReceiver_init ()) =
     Some ((OpulentVoiceReceiver_init ())\<lparr>invalid_frames := 1\<rparr>) \<and>
   parse_frame 0 audio_datagram \<noteq> None \<and>
   (\<exists>s'. process_frame echo_decode 0 0 audio_datagram (OpulentVoiceReceiver_init ()) = Some s' \<and>
      valid_frames s' = 1 \<and> audio_frames s' = 1 \<and> control_frames s' = 0)"
proof -
  let ?s = "OpulentVoiceReceiver_init ()"
  have h: "length (audio_queue (audio_player ?s)) \<le> 50"
    by (simp add: OpulentVoiceReceiver_init_def AudioPlayer_init_def)
  have n: "parse_frame 0 [] = None" by (simp add: parse_frame_def HEADER_SIZE_def)
  have z: "valid_frames ?s = 0" "audio_frames ?s = 0" "control_frames ?s = 0" "invalid_frames ?s = 0"
    by (simp_all add: OpulentVoiceReceiver_init_def)
  show ?thesis
    using process_frame_counters [OF h, of 0 "[]" echo_decode 0]
      process_frame_counters [OF h, of 0 audio_datagram echo_decode 0] h n parse_audio_datagram z
    by (auto simp: FRAME_TYPE_AUDIO_def FRAME_TYPE_CONTROL_def)
qed

text \<open>
  C2 as stated fails: the Text datagram parses, and processing it in a new receiver
  changes \<^verbatim>\<open>valid_frames\<close> and nothing else, so no counter of a frame type goes up.
\<close>

theorem text_frame_has_no_type_counter:
  "map_option frame_type (parse_frame 0 text_datagram) = Some FRAME_TYPE_TEXT \<and>
   process_frame echo_decode 0 0 text_datagram (OpulentVoiceReceiver_init ()) =
     Some ((OpulentVoiceReceiver_init ())\<lparr>valid_frames := 1\<rparr>) \<and>
   audio_frames ((OpulentVoiceReceiver_init ())\<lparr>valid_frames := 1\<rparr>) = 0 \<and>
   control_frames ((OpulentVoiceReceiver_init ())\<lparr>valid_frames := 1\<rparr>) = 0"
  by (simp add: parse_text_datagram process_frame_def Let_def FRAME_TYPE_TEXT_def
      FRAME_TYPE_AUDIO_def FRAME_TYPE_CONTROL_def OpulentVoiceReceiver_init_def)

lemma decode_ptt_start:
  "utf8_decode_ignore (bytes_literal ''PTT_START'') = str_literal ''PTT_START''"
  by (simp add: bytes_literal_def str_literal_def)

lemma decode_ptt_stop:
  "utf8_decode_ignore (bytes_literal ''PTT_STOP'') = str_literal ''PTT_STOP''"
  by (simp add: bytes_literal_def str_literal_def)

lemma ptt_literals_differ: "str_literal ''PTT_STOP'' \<noteq> str_literal ''PTT_START''"
  by (simp add: str_literal_def)

text \<open>
  C3, as the code has it: the payload is decoded with \<^verbatim>\<open>errors='ignore'\<close> before it is
  compared. A Control frame whose decoded payload is \<^verbatim>\<open>PTT_START\<close> sets
  \<^verbatim>\<open>ptt_active\<close>, one whose decoded payload is \<^verbatim>\<open>PTT_STOP\<close> clears it, and every
  other Control frame leaves it as it was; the payloads that are exactly the bytes
  \<^verbatim>\<open>PTT_START\<close> and \<^verbatim>\<open>PTT_STOP\<close> set and clear it.
\<close>

theorem control_frame_ptt:
  assumes "parse_frame t_parse frame_data = Some f" and "frame_type f = FRAME_TYPE_CONTROL"
  shows "\<exists>s'. process_frame dec t_parse t_audio frame_data s = Some s' \<and>
           ptt_active s' =
             (if utf8_decode_ignore (payload f) = str_literal ''PTT_START'' then True
              else if utf8_decode_ignore (payload f) = str_literal ''PTT_STOP'' then False
              else ptt_active s) \<and>
           (payload f = bytes_literal ''PTT_START'' \<longrightarrow> ptt_active s') \<and>
           (payload f = bytes_literal ''PTT_STOP'' \<longrightarrow> \<not> ptt_active s')"
  using decode_ptt_start decode_ptt_stop ptt_literals_differ
  by (auto simp: process_frame_control [OF assms])

text \<open>The \<^verbatim>\<open>PTT_START\<close> datagram sets the flag of a new receiver.\<close>

theorem control_frame_ptt_witness:
  "parse_frame 0 ptt_start_datagram \<noteq> None \<and>
   map_option frame_type (parse_frame 0 ptt_start_datagram) = Some FRAME_TYPE_CONTROL \<and>
   (\<exists>s'. process_frame echo_decode 0 0 ptt_start_datagram (OpulentVoiceReceiver_init ()) = Some s' \<and>
      ptt_active s')"
  using control_frame_ptt
    [OF parse_ptt_start_datagram, of echo_decode 0 "OpulentVoiceReceiver_init ()"]
  by (auto simp: parse_ptt_start_datagram FRAME_TYPE_CONTROL_def)

text \<open>
  C3 as stated fails: a Control frame whose payload is the byte \<^verbatim>\<open>0xFF\<close> followed by
  \<^verbatim>\<open>PTT_START\<close> is another payload, and it sets the flag, because the decoder drops
  the byte \<^verbatim>\<open>0xFF\<close>.
\<close>

theorem ptt_start_with_ignored_byte:
  "map_option frame_type (parse_frame 0 noisy_ptt_datagram) = Some FRAME_TYPE_CONTROL \<and>
   map_option payload (parse_frame 0 noisy_ptt_datagram) = Some (0xFF # bytes_literal ''PTT_START'') \<and>
   0xFF # bytes_literal ''PTT_START'' \<noteq> bytes_literal ''PTT_START'' \<and>
   \<not> ptt_active (OpulentVoiceReceiver_init ()) \<and>
   map_option ptt_active
     (process_frame echo_decode 0 0 noisy_ptt_datagram (OpulentVoiceReceiver_init ())) = Some True"
proof -
  have d: "utf8_decode_ignore (0xFF # bytes_literal ''PTT_START'') = str_literal ''PTT_START''"
    by (simp add: bytes_literal_def str_literal_def)
  have t: "frame_type \<lparr>station_id = [1, 2, 3, 4, 5, 6], frame_type = 3, sequence = 7,
           payload = 0xFF # bytes_literal ''PTT_START'', timestamp = 0\<rparr> = FRAME_TYPE_CONTROL"
    by (simp add: FRAME_TYPE_CONTROL_def)
  show ?thesis
    using d
    by (simp add: process_frame_control [OF parse_noisy_ptt_datagram t] parse_noisy_ptt_datagram
        FRAME_TYPE_CONTROL_def OpulentVoiceReceiver_init_def)
qed

text \<open>
  C6: an Audio frame whose payload the decoder rejects. \<^verbatim>\<open>decode_and_queue_audio\<close> and
  \<^verbatim>\<open>process_frame\<close> return; \<^verbatim>\<open>decode_errors\<close>, \<^verbatim>\<open>valid_frames\<close> and
  \<^verbatim>\<open>audio_frames\<close> are each one higher, and the queue is what it was.
\<close>

theorem audio_frame_decode_failure:
  assumes "parse_frame t_parse frame_data = Some f" and "frame_type f = FRAME_TYPE_AUDIO"
    and "snd (dec (decoder (audio_player s)) (payload f)) = None"
  shows "decode_and_queue_audio dec (payload f) (audio_player s) \<noteq> None \<and>
         (\<exists>s'. process_frame dec t_parse t_audio frame_data s = Some s' \<and>
            decode_errors (audio_player s') = decode_errors (audio_player s) + 1 \<and>
            valid_frames s' = valid_frames s + 1 \<and>
            audio_frames s' = audio_frames s + 1 \<and>
            audio_queue (audio_player s') = audio_queue (audio_player s) \<and>
            length (audio_queue (audio_player s')) = length (audio_queue (audio_player s)))"
proof -
  define d' where "d' = fst (dec (decoder (audio_player s)) (payload f))"
  have "dec (decoder (audio_player s)) (payload f) = (d', None)"
    using assms(3) by (simp add: d'_def prod_eq_iff)
  then have "decode_and_queue_audio dec (payload f) (audio_player s) =
               Some ((audio_player s)\<lparr>decoder := d',
                 decode_errors := decode_errors (audio_player s) + 1\<rparr>)"
    by (rule decode_and_queue_audio_failure)
  then show ?thesis
    by (simp add: process_frame_audio [OF assms(1,2)])
qed

text \<open>The Audio datagram in a new receiver whose decoder raises.\<close>

theorem audio_frame_decode_failure_witness:
  "parse_frame 0 audio_datagram \<noteq> None \<and>
   map_option frame_type (parse_frame 0 audio_datagram) = Some FRAME_TYPE_AUDIO \<and>
   (\<exists>s'. process_frame failing_decode 0 0 audio_datagram (OpulentVoiceReceiver_init ()) = Some s' \<and>
      decode_errors (audio_player s') = 1 \<and> valid_frames s' = 1 \<and> audio_frames s' = 1 \<and>
      audio_queue (audio_player s') = [])"
  using audio_frame_decode_failure
    [OF parse_audio_datagram, of failing_decode "OpulentVoiceReceiver_init ()" 0]
  by (auto simp: parse_audio_datagram FRAME_TYPE_AUDIO_def failing_decode_def
      OpulentVoiceReceiver_init_def AudioPlayer_init_def)

section \<open>The listening loop\<close>

lemma listen_iteration_received:
  assumes "length (audio_queue (audio_player s)) \<le> QUEUE_MAXSIZE"
  shows "\<exists>s'. listen_iteration dec t_parse t_audio (Received data) s = Some s' \<and>
           packets_received s' = packets_received s + 1 \<and>
           bytes_received s' = bytes_received s + int (length data) \<and>
           running s' = running s \<and>
           length (audio_queue (audio_player s')) \<le> QUEUE_MAXSIZE"
proof -
  let ?s2 = "s\<lparr>packets_received := packets_received s + 1,
               bytes_received := bytes_received s + int (length data)\<rparr>"
  have "length (audio_queue (audio_player ?s2)) \<le> QUEUE_MAXSIZE" using assms by simp
  from process_frame_returns [OF this, of dec t_parse t_audio data]
  show ?thesis by (auto simp: listen_iteration_def Let_def)
qed

text \<open>
  C10: a running loop, with the queue within its bound, gets through any list of
  \<^verbatim>\<open>recvfrom\<close> outcomes; by then \<^verbatim>\<open>packets_received\<close> has gone up by the number of
  datagrams received and \<^verbatim>\<open>bytes_received\<close> by the sum of their lengths, whatever
  the datagrams hold and whether or not they parse.
\<close>

theorem listen_loop_counts_every_datagram:
  assumes "running s" and "length (audio_queue (audio_player s)) \<le> 50"
  shows "\<exists>s'. listen_loop dec evs s = Some s' \<and>
           packets_received s' = packets_received s + int (length (received_data evs)) \<and>
           bytes_received s' = bytes_received s + (\<Sum>data\<leftarrow>received_data evs. int (length data))"
  using assms
proof (induction evs arbitrary: s)
  case Nil
  then show ?case by simp
next
  case (Cons ev evs)
  obtain r t_parse t_audio where ev: "ev = (r, t_parse, t_audio)" by (cases ev) auto
  show ?case
  proof (cases r)
    case (Received data)
    have "length (audio_queue (audio_player s)) \<le> QUEUE_MAXSIZE"
      using Cons.prems(2) by (simp add: QUEUE_MAXSIZE_def)
    from listen_iteration_received [OF this, of dec t_parse t_audio data]
    obtain s1 where s1: "listen_iteration dec t_parse t_audio (Received data) s = Some s1"
      "packets_received s1 = packets_received s + 1"
      "bytes_received s1 = bytes_received s + int (length data)"
      "running s1" "length (audio_queue (audio_player s1)) \<le> 50"
      using Cons.prems(1) by (auto simp: QUEUE_MAXSIZE_def)
    from Cons.IH [OF s1(4,5)] show ?thesis
      using Cons.prems(1) s1(1,2,3) by (auto simp: ev Received)
  next
    case SocketTimeout
    from Cons.IH [OF Cons.prems] show ?thesis
      using Cons.prems(1) by (simp add: ev SocketTimeout listen_iteration_def)
  next
    case SocketError
    from Cons.IH [OF Cons.prems] show ?thesis
      using Cons.prems(1) by (simp add: ev SocketError listen_iteration_def)
  qed
qed

text \<open>
  A three-byte datagram that does not parse, a timeout and the 16-byte Audio datagram:
  two packets, nineteen bytes.
\<close>

theorem listen_loop_counts_every_datagram_witness:
  "running ((OpulentVoiceReceiver_init ())\<lparr>running := True\<rparr>) \<and>
   length (audio_queue (audio_player ((OpulentVoiceReceiver_init ())\<lparr>running := True\<rparr>))) \<le> 50 \<and>
   parse_frame 0 [1, 2, 3] = None \<and>
   (\<exists>s'. listen_loop echo_decode [(Received [1, 2, 3], 0, 0), (SocketTimeout, 0, 0),
                                   (Received audio_datagram, 0, 0)]
            ((OpulentVoiceReceiver_init ())\<lparr>running := True\<rparr>) = Some s' \<and>
      packets_received s' = 2 \<and> bytes_received s' = 19)"
proof -
  let ?s = "(OpulentVoiceReceiver_init ())\<lparr>running := True\<rparr>"
  have h1: "running ?s" by simp
  have h2: "length (audio_queue (audio_player ?s)) \<le> 50"
    by (simp add: OpulentVoiceReceiver_init_def AudioPlayer_init_def)
  have n: "parse_frame 0 [1, 2, 3] = None" by (simp add: parse_frame_def HEADER_SIZE_def)
  show ?thesis
    using listen_loop_counts_every_datagram [OF h1 h2, of echo_decode
        "[(Received [1, 2, 3], 0, 0), (SocketTimeout, 0, 0), (Received audio_datagram, 0, 0)]"] h2 n
    by (auto simp: OpulentVoiceReceiver_init_def audio_datagram_def)
qed

end
